theory Spec2Isabelle
  imports Complex_Main "HOL-Library.Log_Nat"
begin

section \<open>Data model\<close>

text \<open>
  A point is a Python sequence of numbers (a tuple, a list, a vector of the drawing
  library); the source reads it by position only. Coordinates are the real numbers of the
  specification's data model; those the machine holds are doubles, the numbers that the
  rounding \<open>fl\<close> below leaves unchanged. The running sum of \<open>calculate_polygon_area\<close>
  is rounded after every operation as the machine rounds it, because its value depends
  on the order of the additions; the single formulas of \<open>calculate_distance\<close> and of the
  circle's area are taken exactly. Overflow is not modelled.
\<close>

type_synonym point = "real list"

text \<open>
  The exceptions the quantity pipeline can raise: reading a coordinate a point does not
  have, and squaring the absent value \<open>None\<close>.
\<close>

datatype error = IndexError | TypeError

text \<open>
  Both dictionaries of the source carry the keys \<open>"type"\<close> and \<open>"layer"\<close>; they are the
  common part of the two records. \<open>entity\<close> is the dictionary built by
  \<open>extract_entities\<close>, \<open>quantity\<close> the one appended by \<open>calculate_quantities\<close>
  (its key \<open>"length"\<close> is the field \<open>length'\<close>). Python's \<open>None\<close> is \<open>None\<close>.
\<close>

record tagged =
  type :: string
  layer :: string

record entity = tagged +
  start_point :: "point option"
  end_point :: "point option"
  radius :: "real option"
  vertices :: "point list"
  is_closed :: bool
  points :: "point list option"

record quantity = tagged +
  length' :: "real option"
  area :: "real option"
  volume :: "real option"

text \<open>
  What \<open>extract_entities\<close> reads of an entity of the drawing library: its
  \<open>dxftype()\<close>, its \<open>dxf.layer\<close>, and the attributes it probes with \<open>getattr\<close>, each of
  which may be missing (\<open>None\<close> here).
\<close>

record raw_entity =
  dxftype :: string
  dxf_layer :: string
  dxf_start :: "point option"
  dxf_end :: "point option"
  dxf_radius :: "real option"
  attr_vertices :: "point list option"
  attr_closed :: "bool option"
  dxf_points :: "point list option"

section \<open>Errors and indexing\<close>

definition and_then :: "error + 'a \<Rightarrow> ('a \<Rightarrow> error + 'b) \<Rightarrow> error + 'b" where
  "and_then m f = (case m of Inl e \<Rightarrow> Inl e | Inr x \<Rightarrow> f x)"

text \<open>\<open>xs[i]\<close> for an index \<open>i \<ge> 0\<close>: out of range raises \<open>IndexError\<close>.\<close>

definition getitem :: "'a list \<Rightarrow> nat \<Rightarrow> error + 'a" where
  "getitem xs i = (if i < length xs then Inr (xs ! i) else Inl IndexError)"

text \<open>The truth value of \<open>entity["points"]\<close>: \<open>None\<close> and the empty list are false.\<close>

definition truthy :: "'a list option \<Rightarrow> bool" where
  "truthy v = (case v of None \<Rightarrow> False | Some xs \<Rightarrow> xs \<noteq> [])"

section \<open>Double-precision rounding\<close>

text \<open>
  Python's floats are IEEE 754 doubles: every arithmetic operation returns the exact
  result rounded to the nearest number with a 53-bit significand, ties going to the even
  significand. \<open>fl\<close> is that rounding on the reals: \<open>ilog2 a\<close> is the exponent of the
  leading bit of \<open>a > 0\<close> (the integer part of its binary logarithm, found from the bit
  length of an integer), \<open>round_even\<close> rounds a scaled significand to an integer. The
  exponent is unbounded: overflow, subnormal numbers, infinities and NaN are not
  modelled.
\<close>

definition ilog2 :: "real \<Rightarrow> int" where
  "ilog2 a = (if 1 \<le> a then bitlen \<lfloor>a\<rfloor> - 1 else - bitlen (\<lceil>1 / a\<rceil> - 1))"

definition round_even :: "real \<Rightarrow> int" where
  "round_even s =
     (let q = \<lfloor>s\<rfloor>; r = s - of_int q
      in if r < 1 / 2 \<or> (r = 1 / 2 \<and> even q) then q else q + 1)"

definition fl :: "real \<Rightarrow> real" where
  "fl x =
     (if x = 0 then 0
      else
        let e = ilog2 \<bar>x\<bar> - 52
        in sgn x * of_int (round_even (\<bar>x\<bar> / 2 powi e)) * 2 powi e)"

section \<open>Geometry\<close>

definition calculate_distance :: "point option \<Rightarrow> point option \<Rightarrow> error + real" where
  "calculate_distance point1 point2 =
     (if point1 = None \<or> point2 = None then Inr 0
      else
        and_then (getitem (the point2) 0) (\<lambda>x2.
        and_then (getitem (the point1) 0) (\<lambda>x1.
        and_then (getitem (the point2) 1) (\<lambda>y2.
        and_then (getitem (the point1) 1) (\<lambda>y1.
          Inr (sqrt ((x2 - x1)\<^sup>2 + (y2 - y1)\<^sup>2)))))))"

definition calculate_volume :: "point list \<Rightarrow> real" where
  "calculate_volume pts =
     (if length pts < 3 then 0
      else
        let base_area = 0;
            height = (if length (pts ! 0) > 2 then pts ! 0 ! 2 else 0)
        in base_area * height)"

text \<open>
  The loop \<open>for i in range(n)\<close> of \<open>calculate_polygon_area\<close>, from index \<open>i\<close> with the
  running sum \<open>acc\<close> (the source's variable \<open>area\<close>). The four coordinates are read in
  the source's order. The value of the sum depends on the order of its additions, so
  here the two products, their difference and the addition to the running sum are each
  rounded, as the machine rounds them; so is the final division by 2.
\<close>

function shoelace :: "point list \<Rightarrow> nat \<Rightarrow> nat \<Rightarrow> real \<Rightarrow> error + real" where
  "shoelace vs n i acc =
     (if i < n then
        and_then (and_then (getitem vs i) (\<lambda>v. getitem v 0)) (\<lambda>x1.
        and_then (and_then (getitem vs i) (\<lambda>v. getitem v 1)) (\<lambda>y1.
        and_then (and_then (getitem vs ((i + 1) mod n)) (\<lambda>v. getitem v 0)) (\<lambda>x2.
        and_then (and_then (getitem vs ((i + 1) mod n)) (\<lambda>v. getitem v 1)) (\<lambda>y2.
          shoelace vs n (i + 1) (fl (acc + fl (fl (x1 * y2) - fl (x2 * y1))))))))
      else Inr acc)"
  by pat_completeness auto
termination
  by (relation "measure (\<lambda>(vs, n, i, acc). n - i)") auto

declare shoelace.simps [simp del]

definition calculate_polygon_area :: "point list \<Rightarrow> error + real" where
  "calculate_polygon_area vs =
     (if length vs < 3 then Inr 0
      else
        let n = length vs
        in and_then (shoelace vs n 0 0) (\<lambda>acc. Inr (fl (\<bar>acc\<bar> / 2))))"

section \<open>Extraction\<close>

definition whitelist :: "string list" where
  "whitelist = [''LINE'', ''CIRCLE'', ''LWPOLYLINE'', ''ARC'', ''3DSOLID'', ''POLYFACE'']"

definition normalize :: "raw_entity \<Rightarrow> entity" where
  "normalize e =
     \<lparr>type = dxftype e,
      layer = dxf_layer e,
      start_point = dxf_start e,
      end_point = dxf_end e,
      radius = dxf_radius e,
      vertices = (case attr_vertices e of None \<Rightarrow> [] | Some vs \<Rightarrow> vs),
      is_closed = (case attr_closed e of None \<Rightarrow> False | Some b \<Rightarrow> b),
      points = dxf_points e\<rparr>"

fun extract_loop :: "raw_entity list \<Rightarrow> entity list \<Rightarrow> entity list" where
  "extract_loop [] entities = entities"
| "extract_loop (e # msp) entities =
     (if dxftype e \<in> set whitelist then extract_loop msp (entities @ [normalize e])
      else extract_loop msp entities)"

definition extract_entities :: "raw_entity list \<Rightarrow> entity list" where
  "extract_entities msp = extract_loop msp []"

section \<open>Quantities\<close>

text \<open>
  The loop of \<open>calculate_quantities\<close> over the remaining entities, with the list
  \<open>results\<close> built so far. An exception leaves the loop and the function: no list is
  returned.
\<close>

fun quantities_loop :: "entity list \<Rightarrow> quantity list \<Rightarrow> error + quantity list" where
  "quantities_loop [] results = Inr results"
| "quantities_loop (e # entities) results =
     (if type e = ''LINE'' then
        and_then (calculate_distance (start_point e) (end_point e)) (\<lambda>len.
          quantities_loop entities
            (results @ [\<lparr>type = ''LINE'', layer = layer e,
                         length' = Some len, area = None, volume = None\<rparr>]))
      else if type e = ''CIRCLE'' then
        and_then (case radius e of None \<Rightarrow> Inl TypeError | Some r \<Rightarrow> Inr (pi * r\<^sup>2)) (\<lambda>a.
          quantities_loop entities
            (results @ [\<lparr>type = ''CIRCLE'', layer = layer e,
                         length' = None, area = Some a, volume = None\<rparr>]))
      else if type e = ''LWPOLYLINE'' \<and> vertices e \<noteq> [] then
        (if is_closed e then
           and_then (calculate_polygon_area (vertices e)) (\<lambda>a.
             quantities_loop entities
               (results @ [\<lparr>type = ''LWPOLYLINE'', layer = layer e,
                            length' = None, area = Some a, volume = None\<rparr>]))
         else
           quantities_loop entities
             (results @ [\<lparr>type = ''LWPOLYLINE'', layer = layer e,
                          length' = None, area = None, volume = None\<rparr>]))
      else if type e = ''3DSOLID'' \<and> truthy (points e) then
        quantities_loop entities
          (results @ [\<lparr>type = ''3DSOLID'', layer = layer e, length' = None, area = None,
                       volume = Some (calculate_volume (the (points e)))\<rparr>])
      else if type e = ''POLYFACE'' \<and> truthy (points e) then
        quantities_loop entities
          (results @ [\<lparr>type = ''POLYFACE'', layer = layer e, length' = None, area = None,
                       volume = Some (calculate_volume (the (points e)))\<rparr>])
      else quantities_loop entities results)"

declare quantities_loop.simps(2) [simp del]

definition calculate_quantities :: "entity list \<Rightarrow> error + quantity list" where
  "calculate_quantities entities = quantities_loop entities []"

text \<open>
  The records one iteration of the loop appends for the entity \<open>e\<close> (none or one), or
  the exception it raises. It is used to state facts about the loop; lemma
  \<open>quantities_loop_Cons\<close> ties it to the loop above.
\<close>

definition emit :: "entity \<Rightarrow> error + quantity list" where
  "emit e =
     (if type e = ''LINE'' then
        and_then (calculate_distance (start_point e) (end_point e)) (\<lambda>len.
          Inr [\<lparr>type = ''LINE'', layer = layer e,
                length' = Some len, area = None, volume = None\<rparr>])
      else if type e = ''CIRCLE'' then
        and_then (case radius e of None \<Rightarrow> Inl TypeError | Some r \<Rightarrow> Inr (pi * r\<^sup>2)) (\<lambda>a.
          Inr [\<lparr>type = ''CIRCLE'', layer = layer e,
                length' = None, area = Some a, volume = None\<rparr>])
      else if type e = ''LWPOLYLINE'' \<and> vertices e \<noteq> [] then
        (if is_closed e then
           and_then (calculate_polygon_area (vertices e)) (\<lambda>a.
             Inr [\<lparr>type = ''LWPOLYLINE'', layer = layer e,
                   length' = None, area = Some a, volume = None\<rparr>])
         else
           Inr [\<lparr>type = ''LWPOLYLINE'', layer = layer e,
                 length' = None, area = None, volume = None\<rparr>])
      else if type e = ''3DSOLID'' \<and> truthy (points e) then
        Inr [\<lparr>type = ''3DSOLID'', layer = layer e, length' = None, area = None,
              volume = Some (calculate_volume (the (points e)))\<rparr>]
      else if type e = ''POLYFACE'' \<and> truthy (points e) then
        Inr [\<lparr>type = ''POLYFACE'', layer = layer e, length' = None, area = None,
              volume = Some (calculate_volume (the (points e)))\<rparr>]
      else Inr [])"

section \<open>Notions used in the statements\<close>

text \<open>
  The cross product of two vertices read by their first two coordinates, the sum of the
  cross products around the cycle of vertices, and the vertex lists all of whose vertices
  have the two coordinates the loop reads.
\<close>

definition cross :: "point \<Rightarrow> point \<Rightarrow> real" where
  "cross v w = v ! 0 * w ! 1 - w ! 0 * v ! 1"

definition cyclic_sum :: "point list \<Rightarrow> real" where
  "cyclic_sum vs = (\<Sum>j<length vs. cross (vs ! j) (vs ! ((j + 1) mod length vs)))"

definition planar :: "point list \<Rightarrow> bool" where
  "planar vs = list_all (\<lambda>v. 2 \<le> length v) vs"

text \<open>
  Vertex lists on which the shoelace sum is computed without rounding: the coordinates
  read are integers of magnitude at most \<open>B\<close>, and the vertices are few enough for every
  partial sum to stay below \<open>2 ^ 53\<close>.
\<close>

definition exact_input :: "nat \<Rightarrow> point list \<Rightarrow> bool" where
  "exact_input B vs \<longleftrightarrow>
     2 * B\<^sup>2 * length vs < 2 ^ 53 \<and>
     list_all (\<lambda>v. list_all (\<lambda>c. c \<in> \<int> \<and> \<bar>c\<bar> \<le> real B) (take 2 v)) vs"

section \<open>Example inputs\<close>

definition square :: "point list" where
  "square = [[0, 0], [4, 0], [4, 4], [0, 4]]"

definition line_3_4 :: entity where
  "line_3_4 = \<lparr>type = ''LINE'', layer = ''0'', start_point = Some [0, 0, 0],
      end_point = Some [3, 4, 0], radius = None, vertices = [], is_closed = False,
      points = None\<rparr>"

definition circle_2 :: entity where
  "circle_2 = \<lparr>type = ''CIRCLE'', layer = ''0'', start_point = None, end_point = None,
      radius = Some 2, vertices = [], is_closed = False, points = None\<rparr>"

definition circle_no_radius :: entity where
  "circle_no_radius = \<lparr>type = ''CIRCLE'', layer = ''0'', start_point = None,
      end_point = None, radius = None, vertices = [], is_closed = False, points = None\<rparr>"

definition arc_entity :: entity where
  "arc_entity = \<lparr>type = ''ARC'', layer = ''0'', start_point = None, end_point = None,
      radius = Some 1, vertices = [], is_closed = False, points = None\<rparr>"

definition open_polyline :: entity where
  "open_polyline = \<lparr>type = ''LWPOLYLINE'', layer = ''walls'', start_point = None,
      end_point = None, radius = None, vertices = [[0, 0], [4, 0], [4, 4]],
      is_closed = False, points = None\<rparr>"

definition raw_arc :: raw_entity where
  "raw_arc = \<lparr>dxftype = ''ARC'', dxf_layer = ''0'', dxf_start = None, dxf_end = None,
      dxf_radius = Some 1, attr_vertices = None, attr_closed = None, dxf_points = None\<rparr>"

section \<open>The loop of calculate_quantities\<close>

lemma and_then_simps [simp]:
  "and_then (Inl err) f = Inl err"
  "and_then (Inr x) f = f x"
  by (simp_all add: and_then_def)

lemma and_then_Inr_iff:
  "and_then m f = Inr y \<longleftrightarrow> (\<exists>x. m = Inr x \<and> f x = Inr y)"
  by (cases m) simp_all

lemma and_then_assoc:
  "and_then (and_then m f) g = and_then m (\<lambda>x. and_then (f x) g)"
  by (cases m) simp_all

lemma quantities_loop_Cons:
  "quantities_loop (e # es) acc = and_then (emit e) (\<lambda>r. quantities_loop es (acc @ r))"
  by (cases "calculate_distance (start_point e) (end_point e)";
      cases "radius e"; cases "calculate_polygon_area (vertices e)")
     (simp_all add: quantities_loop.simps(2) emit_def)

lemma quantities_loop_acc:
  "quantities_loop es (acc @ acc') =
     and_then (quantities_loop es acc') (\<lambda>rs. Inr (acc @ rs))"
proof (induction es arbitrary: acc')
  case Nil
  show ?case by simp
next
  case (Cons e es)
  show ?case
  proof (cases "emit e")
    case (Inl err)
    then show ?thesis by (simp add: quantities_loop_Cons)
  next
    case (Inr r)
    have "quantities_loop es (acc @ (acc' @ r)) =
            and_then (quantities_loop es (acc' @ r)) (\<lambda>rs. Inr (acc @ rs))"
      by (rule Cons.IH)
    with Inr show ?thesis by (simp add: quantities_loop_Cons)
  qed
qed

lemma calculate_quantities_Nil: "calculate_quantities [] = Inr []"
  by (simp add: calculate_quantities_def)

lemma calculate_quantities_Cons:
  "calculate_quantities (e # es) =
     and_then (emit e) (\<lambda>r. and_then (calculate_quantities es) (\<lambda>rs. Inr (r @ rs)))"
proof (cases "emit e")
  case (Inl err)
  then show ?thesis by (simp add: calculate_quantities_def quantities_loop_Cons)
next
  case (Inr r)
  have "quantities_loop es (r @ []) = and_then (quantities_loop es []) (\<lambda>rs. Inr (r @ rs))"
    by (rule quantities_loop_acc)
  with Inr show ?thesis by (simp add: calculate_quantities_def quantities_loop_Cons)
qed

lemma calculate_quantities_single: "calculate_quantities [e] = emit e"
  by (cases "emit e") (simp_all add: calculate_quantities_Cons calculate_quantities_Nil)

lemma calculate_quantities_append:
  "calculate_quantities (xs @ ys) =
     and_then (calculate_quantities xs) (\<lambda>r1.
       and_then (calculate_quantities ys) (\<lambda>r2. Inr (r1 @ r2)))"
proof (induction xs)
  case Nil
  show ?case by (cases "calculate_quantities ys") (simp_all add: calculate_quantities_Nil)
next
  case (Cons e xs)
  show ?case
    by (cases "emit e"; cases "calculate_quantities xs"; cases "calculate_quantities ys")
       (simp_all add: calculate_quantities_Cons Cons.IH)
qed

lemma emit_length: "emit e = Inr r \<Longrightarrow> length r \<le> 1"
  by (auto simp: emit_def and_then_Inr_iff split: if_splits)

section \<open>calculate_volume\<close>

text \<open>
  Claim C2. For every list of points \<open>calculate_volume\<close> returns 0: with fewer than
  three points by the guard, and otherwise because the product \<open>base_area * height\<close> has
  \<open>base_area = 0\<close>, whatever the coordinates and the Z heights are.
\<close>

theorem calculate_volume_zero: "calculate_volume pts = 0"
  by (simp add: calculate_volume_def)

theorem calculate_volume_zero_witness:
  "calculate_volume [[0, 0, 5], [1, 0, 5], [1, 1, 5]] = 0 \<and> calculate_volume [[1, 2, 3]] = 0"
  using calculate_volume_zero [of "[[0, 0, 5], [1, 0, 5], [1, 1, 5]]"]
    calculate_volume_zero [of "[[1, 2, 3]]"] by simp

section \<open>Rounding\<close>

lemma powi_nat: "0 \<le> k \<Longrightarrow> (2::real) powi k = 2 ^ nat k"
  by (simp add: power_int_def)

lemma powi_neg_nat: "0 \<le> k \<Longrightarrow> (2::real) powi (- k) = 1 / 2 ^ nat k"
  by (simp add: power_int_minus_divide powi_nat)

lemma powi_less_cancel: "(2::real) powi m < 2 powi n \<Longrightarrow> m < n"
proof (rule ccontr)
  assume lt: "(2::real) powi m < 2 powi n" and "\<not> m < n"
  then have "n \<le> m" by simp
  then have "(2::real) powi n \<le> 2 powi m" by (intro power_int_increasing) simp_all
  with lt show False by simp
qed

text \<open>\<open>ilog2 a\<close> is the exponent \<open>k\<close> with \<open>2 powi k \<le> a < 2 powi (k + 1)\<close>.\<close>

lemma ilog2_bounds:
  assumes "0 < a"
  shows "2 powi ilog2 a \<le> a \<and> a < 2 powi (ilog2 a + 1)"
proof (cases "1 \<le> a")
  case True
  let ?m = "\<lfloor>a\<rfloor>"
  have m: "0 < ?m" using True by simp
  then have b: "1 \<le> bitlen ?m" by (simp add: bitlen_alt_def)
  from bitlen_bounds [OF m] have lo: "2 ^ nat (bitlen ?m - 1) \<le> ?m" and hi: "?m < 2 ^ nat (bitlen ?m)"
    by simp_all
  have "(2::real) ^ nat (bitlen ?m - 1) \<le> of_int ?m"
    using lo by (metis of_int_le_iff of_int_numeral of_int_power)
  also have "\<dots> \<le> a" by simp
  finally have 1: "(2::real) powi (bitlen ?m - 1) \<le> a" using b by (simp add: powi_nat)
  from hi have "?m + 1 \<le> 2 ^ nat (bitlen ?m)" by simp
  then have "of_int (?m + 1) \<le> (2::real) ^ nat (bitlen ?m)"
    by (metis of_int_le_iff of_int_numeral of_int_power)
  moreover have "a < of_int (?m + 1)" by simp
  ultimately have "a < (2::real) ^ nat (bitlen ?m)" by linarith
  then have 2: "a < (2::real) powi (bitlen ?m - 1 + 1)" using b by (simp add: powi_nat)
  from 1 2 True show ?thesis by (simp add: ilog2_def)
next
  case False
  let ?t = "\<lceil>1 / a\<rceil> - 1"
  have inv: "1 < 1 / a" using False assms by simp
  then have "2 \<le> \<lceil>1 / a\<rceil>" by (simp add: le_ceiling_iff)
  then have t: "0 < ?t" by simp
  then have b: "1 \<le> bitlen ?t" by (simp add: bitlen_alt_def)
  from bitlen_bounds [OF t] have lo: "2 ^ nat (bitlen ?t - 1) \<le> ?t" and hi: "?t < 2 ^ nat (bitlen ?t)"
    by simp_all
  have tl: "of_int ?t < 1 / a" and tu: "1 / a \<le> of_int (?t + 1)"
    by (simp_all add: ceiling_correct)
  have "(2::real) ^ nat (bitlen ?t - 1) \<le> of_int ?t"
    using lo by (metis of_int_le_iff of_int_numeral of_int_power)
  with tl have "(2::real) ^ nat (bitlen ?t - 1) < 1 / a" by linarith
  then have "a < 1 / 2 ^ nat (bitlen ?t - 1)" using assms
    by (simp add: field_simps)
  also have "\<dots> = 2 powi (- (bitlen ?t - 1))" using b powi_neg_nat [of "bitlen ?t - 1"] by simp
  finally have 2: "a < 2 powi (- bitlen ?t + 1)" by simp
  from hi have "?t + 1 \<le> 2 ^ nat (bitlen ?t)" by simp
  then have "of_int (?t + 1) \<le> (2::real) ^ nat (bitlen ?t)"
    by (metis of_int_le_iff of_int_numeral of_int_power)
  with tu have "1 / a \<le> (2::real) ^ nat (bitlen ?t)" by linarith
  then have "1 / 2 ^ nat (bitlen ?t) \<le> a" using assms
    by (simp add: field_simps)
  then have 1: "2 powi (- bitlen ?t) \<le> a" using b by (simp add: powi_neg_nat)
  from 1 2 False show ?thesis by (simp add: ilog2_def)
qed

lemma ilog2_unique:
  assumes "0 < a" and "2 powi k \<le> a" and "a < 2 powi (k + 1)"
  shows "ilog2 a = k"
proof -
  from ilog2_bounds [OF assms(1)] have lo: "2 powi ilog2 a \<le> a" and hi: "a < 2 powi (ilog2 a + 1)"
    by simp_all
  from assms(2) hi have "(2::real) powi k < 2 powi (ilog2 a + 1)" by linarith
  then have "k < ilog2 a + 1" by (rule powi_less_cancel)
  moreover from lo assms(3) have "(2::real) powi ilog2 a < 2 powi (k + 1)" by linarith
  then have "ilog2 a < k + 1" by (rule powi_less_cancel)
  ultimately show ?thesis by simp
qed

lemma ilog2_floor_log: "0 < a \<Longrightarrow> ilog2 a = \<lfloor>log 2 a\<rfloor>"
proof -
  assume a: "0 < a"
  have "2 powr real_of_int (ilog2 a) = 2 powi ilog2 a"
    by (simp add: powr_real_of_int')
  moreover have "2 powr (real_of_int (ilog2 a) + 1) = 2 powi (ilog2 a + 1)"
    using powr_real_of_int' [of 2 "ilog2 a + 1"] by simp
  ultimately have "2 powr (of_int (ilog2 a)) \<le> a \<and> a < 2 powr (of_int (ilog2 a) + 1)"
    using ilog2_bounds [OF a] by simp
  then have "\<lfloor>log 2 a\<rfloor> = ilog2 a"
    using a by (subst floor_log_eq_powr_iff) simp_all
  then show ?thesis by simp
qed

text \<open>
  Rounding with a known exponent: when \<open>\<bar>x\<bar>\<close> lies between \<open>2 ^ 52 * 2 powi e\<close> and
  \<open>2 ^ 53 * 2 powi e\<close>, the result is the multiple of \<open>2 powi e\<close> nearest to \<open>x\<close>.
\<close>

lemma fl_eq:
  assumes "x \<noteq> 0" and "2 ^ 52 * 2 powi e \<le> \<bar>x\<bar>" and "\<bar>x\<bar> < 2 ^ 53 * 2 powi e"
  shows "fl x = sgn x * of_int (round_even (\<bar>x\<bar> / 2 powi e)) * 2 powi e"
proof -
  have "(2::real) powi (e + 52) = 2 ^ 52 * 2 powi e" "(2::real) powi (e + 52 + 1) = 2 ^ 53 * 2 powi e"
    by (simp_all add: power_int_add)
  with assms have "ilog2 \<bar>x\<bar> = e + 52"
    by (intro ilog2_unique) simp_all
  with assms(1) show ?thesis by (simp add: fl_def)
qed

lemma fl_eval:
  assumes "x \<noteq> 0" and "2 ^ 52 * 2 powi e \<le> \<bar>x\<bar>" and "\<bar>x\<bar> < 2 ^ 53 * 2 powi e"
    and "round_even (\<bar>x\<bar> / 2 powi e) = m" and "y = sgn x * of_int m * 2 powi e"
  shows "fl x = y"
  using fl_eq [OF assms(1-3)] assms(4,5) by simp

lemma fl_zero: "fl 0 = 0"
  by (simp add: fl_def)

lemma round_even_of_int: "round_even (of_int k) = k"
  by (simp add: round_even_def)

text \<open>A number with a significand below \<open>2 ^ 53\<close> is not changed by rounding.\<close>

lemma fl_exact:
  assumes "\<bar>k\<bar> < 2 ^ 53"
  shows "fl (of_int k * 2 powi j) = of_int k * 2 powi j"
proof (cases "k = 0")
  case True
  then show ?thesis by (simp add: fl_def)
next
  case False
  let ?x = "of_int k * (2::real) powi j"
  let ?a = "\<bar>?x\<bar>"
  let ?e = "ilog2 ?a - 52"
  have a: "?a = of_int \<bar>k\<bar> * 2 powi j" by (simp add: abs_mult)
  have pos: "0 < ?a" using False by simp
  from ilog2_bounds [OF pos] have lo: "2 powi ilog2 ?a \<le> ?a" by simp
  have "of_int \<bar>k\<bar> < (2::real) ^ 53" using assms
    by (metis of_int_less_iff of_int_numeral of_int_power)
  then have "?a < 2 ^ 53 * 2 powi j" unfolding a by simp
  also have "\<dots> = 2 powi (53 + j)" by (simp add: power_int_add)
  finally have "(2::real) powi ilog2 ?a < 2 powi (53 + j)" using lo by linarith
  then have "ilog2 ?a < 53 + j" by (rule powi_less_cancel)
  then have le: "0 \<le> j - ?e" by simp
  have "?a / 2 powi ?e = of_int \<bar>k\<bar> * 2 powi (j - ?e)"
    unfolding a by (simp add: power_int_diff)
  also have "\<dots> = of_int (\<bar>k\<bar> * 2 ^ nat (j - ?e))"
    using le by (simp add: powi_nat)
  finally have s: "?a / 2 powi ?e = of_int (\<bar>k\<bar> * 2 ^ nat (j - ?e))" .
  have "round_even (?a / 2 powi ?e) = \<bar>k\<bar> * 2 ^ nat (j - ?e)"
    unfolding s by (rule round_even_of_int)
  then have "of_int (round_even (?a / 2 powi ?e)) = ?a / 2 powi ?e"
    using s by simp
  then have "fl ?x = sgn ?x * (?a / 2 powi ?e) * 2 powi ?e"
    using False by (simp add: fl_def Let_def)
  also have "\<dots> = sgn ?x * ?a" by simp
  also have "\<dots> = ?x" by (simp add: sgn_mult_abs)
  finally show ?thesis .
qed

lemma fl_of_int: "\<bar>k\<bar> < 2 ^ 53 \<Longrightarrow> fl (of_int k) = of_int k"
  using fl_exact [of k 0] by simp

lemma fl_half_of_int: "\<bar>k\<bar> < 2 ^ 53 \<Longrightarrow> fl (of_int k / 2) = of_int k / 2"
  using fl_exact [of k "- 1"] by (simp add: power_int_minus_divide)

section \<open>calculate_polygon_area\<close>

lemma getitem_coord:
  "i < length vs \<Longrightarrow> 2 \<le> length (vs ! i) \<Longrightarrow>
     and_then (getitem vs i) (\<lambda>v. getitem v 0) = Inr (vs ! i ! 0) \<and>
     and_then (getitem vs i) (\<lambda>v. getitem v 1) = Inr (vs ! i ! 1)"
  by (auto simp: getitem_def)

lemma planar_nth: "planar vs \<longleftrightarrow> (\<forall>j<length vs. 2 \<le> length (vs ! j))"
  by (simp add: planar_def list_all_length)

lemma shoelace_step_ok:
  assumes "i < n" "n = length vs" "2 \<le> length (vs ! i)" "2 \<le> length (vs ! ((i + 1) mod n))"
  shows "shoelace vs n i acc =
           shoelace vs n (i + 1)
             (fl (acc + fl (fl (vs ! i ! 0 * vs ! ((i + 1) mod n) ! 1) -
                            fl (vs ! ((i + 1) mod n) ! 0 * vs ! i ! 1))))"
proof -
  have k: "(i + 1) mod n < length vs" using assms(1,2) by (auto intro: mod_less_divisor)
  show ?thesis
    using assms getitem_coord [of i vs] getitem_coord [OF k]
    by (subst shoelace.simps) simp
qed

lemma shoelace_step_bad:
  assumes "i < n" "n = length vs"
    "\<not> 2 \<le> length (vs ! i) \<or> \<not> 2 \<le> length (vs ! ((i + 1) mod n))"
  shows "shoelace vs n i acc = Inl IndexError"
proof -
  have k: "(i + 1) mod n < length vs" using assms(1,2) by (auto intro: mod_less_divisor)
  have i: "i < length vs" using assms by simp
  show ?thesis
  proof (cases "2 \<le> length (vs ! i)")
    case False
    then show ?thesis using assms(1) i
      by (subst shoelace.simps) (auto simp: getitem_def)
  next
    case True
    with assms(3) have "\<not> 2 \<le> length (vs ! ((i + 1) mod n))" by simp
    then show ?thesis using assms(1) i k True assms(2)
      by (subst shoelace.simps) (auto simp: getitem_def)
  qed
qed

subsection \<open>Inputs on which nothing is rounded\<close>

lemma exact_coords:
  assumes "exact_input B vs" and "v \<in> set vs" and "2 \<le> length v"
  obtains a b :: int where "v ! 0 = of_int a" "v ! 1 = of_int b" "\<bar>a\<bar> \<le> int B" "\<bar>b\<bar> \<le> int B"
proof -
  from assms(1,2) have all: "\<forall>c\<in>set (take 2 v). c \<in> \<int> \<and> \<bar>c\<bar> \<le> real B"
    by (auto simp: exact_input_def list_all_iff)
  have "take 2 v ! 0 \<in> set (take 2 v)" "take 2 v ! 1 \<in> set (take 2 v)"
    using assms(3) by (intro nth_mem; simp)+
  then have "v ! 0 \<in> set (take 2 v)" "v ! 1 \<in> set (take 2 v)" by simp_all
  with all have 0: "v ! 0 \<in> \<int>" "\<bar>v ! 0\<bar> \<le> real B" and 1: "v ! 1 \<in> \<int>" "\<bar>v ! 1\<bar> \<le> real B"
    by blast+
  from 0(1) obtain a :: int where a: "v ! 0 = of_int a" by (rule Ints_cases)
  from 1(1) obtain b :: int where b: "v ! 1 = of_int b" by (rule Ints_cases)
  from 0(2) a have "\<bar>a\<bar> \<le> int B" by linarith
  moreover from 1(2) b have "\<bar>b\<bar> \<le> int B" by linarith
  ultimately show ?thesis using a b that by blast
qed

lemma abs_mult_le: "\<bar>a\<bar> \<le> int B \<Longrightarrow> \<bar>d\<bar> \<le> int B \<Longrightarrow> \<bar>a * d\<bar> \<le> (int B)\<^sup>2"
proof -
  assume "\<bar>a\<bar> \<le> int B" "\<bar>d\<bar> \<le> int B"
  then have "\<bar>a\<bar> * \<bar>d\<bar> \<le> int B * int B" by (intro mult_mono) simp_all
  then show ?thesis by (simp add: abs_mult power2_eq_square)
qed

lemma exact_input_total: "exact_input B vs \<Longrightarrow> 2 * (int B)\<^sup>2 * int (length vs) < 2 ^ 53"
proof -
  assume "exact_input B vs"
  then have "2 * B\<^sup>2 * length vs < 2 ^ 53" by (simp add: exact_input_def)
  then have "int (2 * B\<^sup>2 * length vs) < int (2 ^ 53)" by (simp only: of_nat_less_iff)
  then show ?thesis by simp
qed

lemma cross_exact:
  assumes "v ! 0 = of_int a" "v ! 1 = of_int b" "w ! 0 = of_int c" "w ! 1 = of_int d"
    and "\<bar>a\<bar> \<le> int B" "\<bar>b\<bar> \<le> int B" "\<bar>c\<bar> \<le> int B" "\<bar>d\<bar> \<le> int B"
    and small: "2 * (int B)\<^sup>2 < 2 ^ 53"
  shows "fl (fl (v ! 0 * w ! 1) - fl (w ! 0 * v ! 1)) = cross v w \<and>
         cross v w = of_int (a * d - c * b) \<and> \<bar>a * d - c * b\<bar> \<le> 2 * (int B)\<^sup>2"
proof -
  have ad: "\<bar>a * d\<bar> \<le> (int B)\<^sup>2" and cb: "\<bar>c * b\<bar> \<le> (int B)\<^sup>2"
    using assms(5-8) by (simp_all only: abs_mult_le)
  then have diff: "\<bar>a * d - c * b\<bar> \<le> 2 * (int B)\<^sup>2" by linarith
  have "fl (v ! 0 * w ! 1) = of_int (a * d)"
    using fl_of_int [of "a * d"] ad small assms(1,4) by simp
  moreover have "fl (w ! 0 * v ! 1) = of_int (c * b)"
    using fl_of_int [of "c * b"] cb small assms(2,3) by simp
  moreover have "fl (of_int (a * d - c * b)) = of_int (a * d - c * b)"
    using fl_of_int [of "a * d - c * b"] diff small by simp
  ultimately have "fl (fl (v ! 0 * w ! 1) - fl (w ! 0 * v ! 1)) = of_int (a * d - c * b)"
    by simp
  moreover have "cross v w = of_int (a * d - c * b)"
    using assms(1-4) by (simp add: cross_def)
  ultimately show ?thesis using diff by simp
qed

lemma shoelace_exact:
  assumes "n = length vs" and "exact_input B vs"
  shows "i \<le> n \<Longrightarrow> \<forall>j<i. 2 \<le> length (vs ! j) \<Longrightarrow> acc = of_int z \<Longrightarrow>
    \<bar>z\<bar> \<le> 2 * (int B)\<^sup>2 * int i \<Longrightarrow>
    shoelace vs n i acc =
      (if planar vs then Inr (acc + (\<Sum>j=i..<n. cross (vs ! j) (vs ! ((j + 1) mod n))))
       else Inl IndexError) \<and>
    (planar vs \<longrightarrow>
      (\<exists>t::int. acc + (\<Sum>j=i..<n. cross (vs ! j) (vs ! ((j + 1) mod n))) = of_int t \<and>
         \<bar>t\<bar> \<le> 2 * (int B)\<^sup>2 * int n))"
proof (induction "n - i" arbitrary: i acc z)
  case 0
  then have "i = n" by simp
  with 0 assms show ?case
    by (subst shoelace.simps) (auto simp: planar_nth)
next
  case (Suc d)
  then have lt: "i < n" by simp
  let ?k = "(i + 1) mod n"
  let ?S = "\<lambda>i. \<Sum>j=i..<n. cross (vs ! j) (vs ! ((j + 1) mod n))"
  have k: "?k < length vs" using lt assms(1) by (auto intro: mod_less_divisor)
  show ?case
  proof (cases "2 \<le> length (vs ! i) \<and> 2 \<le> length (vs ! ?k)")
    case True
    have prev: "\<forall>j<i + 1. 2 \<le> length (vs ! j)"
      using Suc.prems(2) True by (auto simp: less_Suc_eq)
    have mem: "vs ! i \<in> set vs" "vs ! ?k \<in> set vs"
      using lt k assms(1) by simp_all
    from exact_coords [OF assms(2) mem(1)] True obtain a b :: int where
      v: "vs ! i ! 0 = of_int a" "vs ! i ! 1 = of_int b" "\<bar>a\<bar> \<le> int B" "\<bar>b\<bar> \<le> int B"
      by blast
    from exact_coords [OF assms(2) mem(2)] True obtain c e :: int where
      w: "vs ! ?k ! 0 = of_int c" "vs ! ?k ! 1 = of_int e" "\<bar>c\<bar> \<le> int B" "\<bar>e\<bar> \<le> int B"
      by blast
    have total: "2 * (int B)\<^sup>2 * int n < 2 ^ 53"
      using assms exact_input_total by simp
    have "2 * (int B)\<^sup>2 * 1 \<le> 2 * (int B)\<^sup>2 * int n"
      using lt by (intro mult_left_mono) simp_all
    with total have one: "2 * (int B)\<^sup>2 < 2 ^ 53" by linarith
    let ?t = "a * e - c * b"
    from cross_exact [OF v(1,2) w(1,2) v(3,4) w(3,4) one]
    have rounded: "fl (fl (vs ! i ! 0 * vs ! ?k ! 1) - fl (vs ! ?k ! 0 * vs ! i ! 1)) = cross (vs ! i) (vs ! ?k)"
      and int: "cross (vs ! i) (vs ! ?k) = of_int ?t" and bound: "\<bar>?t\<bar> \<le> 2 * (int B)\<^sup>2"
      by simp_all
    have next_bound: "\<bar>z + ?t\<bar> \<le> 2 * (int B)\<^sup>2 * int (i + 1)"
      using Suc.prems(4) bound by (simp add: algebra_simps)
    have "2 * (int B)\<^sup>2 * int (i + 1) \<le> 2 * (int B)\<^sup>2 * int n"
      using lt by (intro mult_left_mono) simp_all
    with total next_bound have "\<bar>z + ?t\<bar> < 2 ^ 53" by linarith
    then have "fl (of_int (z + ?t)) = of_int (z + ?t)" by (rule fl_of_int)
    then have sum: "fl (acc + cross (vs ! i) (vs ! ?k)) = of_int (z + ?t)"
      using Suc.prems(3) int by simp
    have "shoelace vs n i acc = shoelace vs n (i + 1) (of_int (z + ?t))"
      using shoelace_step_ok [OF lt assms(1), of acc] True rounded sum by simp
    moreover have "shoelace vs n (i + 1) (of_int (z + ?t)) =
        (if planar vs then Inr (of_int (z + ?t) + ?S (i + 1)) else Inl IndexError) \<and>
        (planar vs \<longrightarrow> (\<exists>t::int. of_int (z + ?t) + ?S (i + 1) = of_int t \<and>
           \<bar>t\<bar> \<le> 2 * (int B)\<^sup>2 * int n))"
      using Suc.hyps(2) lt prev next_bound
      by (intro Suc.hyps(1) [where z = "z + ?t"]) simp_all
    moreover have "of_int (z + ?t) + ?S (i + 1) = acc + ?S i"
      using lt Suc.prems(3) int by (simp add: sum.atLeast_Suc_lessThan)
    ultimately show ?thesis by simp
  next
    case False
    then have bad: "\<not> 2 \<le> length (vs ! i) \<or> \<not> 2 \<le> length (vs ! ?k)" by simp
    with k lt assms have "\<not> planar vs" by (auto simp: planar_nth)
    moreover have "shoelace vs n i acc = Inl IndexError"
      using lt assms(1) bad by (rule shoelace_step_bad)
    ultimately show ?thesis by simp
  qed
qed

lemma calculate_polygon_area_exact:
  assumes "exact_input B vs"
  shows "calculate_polygon_area vs =
     (if length vs < 3 then Inr 0
      else if planar vs then Inr (\<bar>cyclic_sum vs\<bar> / 2)
      else Inl IndexError)"
proof -
  let ?S = "\<Sum>j=0..<length vs. cross (vs ! j) (vs ! ((j + 1) mod length vs))"
  have S: "?S = cyclic_sum vs" by (simp add: cyclic_sum_def atLeast0LessThan)
  have run: "shoelace vs (length vs) 0 0 =
      (if planar vs then Inr (0 + ?S) else Inl IndexError) \<and>
      (planar vs \<longrightarrow> (\<exists>t::int. 0 + ?S = of_int t \<and> \<bar>t\<bar> \<le> 2 * (int B)\<^sup>2 * int (length vs)))"
    using assms by (intro shoelace_exact [where z = 0]) simp_all
  show ?thesis
  proof (cases "planar vs")
    case False
    with run show ?thesis by (simp add: calculate_polygon_area_def)
  next
    case True
    with run obtain t :: int where t: "?S = of_int t" "\<bar>t\<bar> \<le> 2 * (int B)\<^sup>2 * int (length vs)"
      by auto
    from exact_input_total [OF assms] t(2) have "\<bar>\<bar>t\<bar>\<bar> < 2 ^ 53" by linarith
    then have "fl (of_int \<bar>t\<bar> / 2) = of_int \<bar>t\<bar> / 2" by (rule fl_half_of_int)
    then have "fl (\<bar>cyclic_sum vs\<bar> / 2) = \<bar>cyclic_sum vs\<bar> / 2"
      using t(1) S by simp
    with run True S show ?thesis by (simp add: calculate_polygon_area_def)
  qed
qed

lemma cross_swap: "cross w v = - cross v w"
  by (simp add: cross_def)

lemma cyclic_sum_rotate1: "cyclic_sum (rotate1 vs) = cyclic_sum vs"
proof (cases "length vs")
  case 0
  then show ?thesis by (simp add: cyclic_sum_def)
next
  case (Suc m)
  let ?n = "length vs"
  let ?g = "\<lambda>k. cross (vs ! k) (vs ! ((k + 1) mod ?n))"
  have nth: "\<And>j. j < ?n \<Longrightarrow> rotate1 vs ! j = vs ! ((j + 1) mod ?n)"
    by (simp add: nth_rotate1)
  have pos: "0 < ?n" by (simp add: Suc)
  have "cross (rotate1 vs ! j) (rotate1 vs ! ((j + 1) mod ?n)) = ?g ((j + 1) mod ?n)"
    if "j < ?n" for j
  proof -
    have "(j + 1) mod ?n < ?n" using pos by (rule mod_less_divisor)
    then have "rotate1 vs ! ((j + 1) mod ?n) = vs ! (((j + 1) mod ?n + 1) mod ?n)"
      by (rule nth)
    moreover have "rotate1 vs ! j = vs ! ((j + 1) mod ?n)" using that by (rule nth)
    ultimately show ?thesis by simp
  qed
  then have "cyclic_sum (rotate1 vs) = (\<Sum>j<?n. ?g ((j + 1) mod ?n))"
    by (simp add: cyclic_sum_def)
  also have "\<dots> = (\<Sum>j<m. ?g ((j + 1) mod ?n)) + ?g ((m + 1) mod ?n)"
    by (simp add: Suc)
  also have "(\<Sum>j<m. ?g ((j + 1) mod ?n)) = (\<Sum>j<m. ?g (Suc j))"
    by (rule sum.cong) (simp_all add: Suc)
  also have "(m + 1) mod ?n = 0"
    by (simp add: Suc)
  also have "(\<Sum>j<m. ?g (Suc j)) + ?g 0 = (\<Sum>j<Suc m. ?g j)"
    using sum.lessThan_Suc_shift [of ?g m] by (simp only: add.commute)
  finally show ?thesis by (simp only: cyclic_sum_def Suc)
qed

lemma cyclic_sum_rotate: "cyclic_sum (rotate k vs) = cyclic_sum vs"
  by (induction k) (simp_all add: cyclic_sum_rotate1)

lemma cyclic_sum_rev: "cyclic_sum (rev vs) = - cyclic_sum vs"
proof (cases "length vs")
  case 0
  then show ?thesis by (simp add: cyclic_sum_def)
next
  case (Suc m)
  let ?n = "length vs"
  let ?g = "\<lambda>k. cross (vs ! k) (vs ! ((k + 1) mod ?n))"
  have "cyclic_sum (rev vs) =
      (\<Sum>j<m. cross (rev vs ! j) (rev vs ! ((j + 1) mod ?n))) + cross (rev vs ! m) (rev vs ! ((m + 1) mod ?n))"
    by (simp add: cyclic_sum_def Suc)
  also have "(\<Sum>j<m. cross (rev vs ! j) (rev vs ! ((j + 1) mod ?n))) = (\<Sum>j<m. - ?g (m - Suc j))"
  proof (rule sum.cong)
    fix j assume "j \<in> {..<m}"
    then have j: "j < m" by simp
    then have "rev vs ! j = vs ! (m - j)" "rev vs ! ((j + 1) mod ?n) = vs ! (m - Suc j)"
      by (simp_all add: rev_nth Suc)
    moreover have "(m - Suc j + 1) mod ?n = m - j" using j by (simp add: Suc)
    ultimately show "cross (rev vs ! j) (rev vs ! ((j + 1) mod ?n)) = - ?g (m - Suc j)"
      by (simp add: cross_swap [of "vs ! (m - j)"])
  qed simp
  also have "\<dots> = - (\<Sum>j<m. ?g (m - Suc j))"
    by (simp add: sum_negf)
  also have "(\<Sum>j<m. ?g (m - Suc j)) = (\<Sum>j<m. ?g j)"
    by (rule sum.nat_diff_reindex)
  also have "cross (rev vs ! m) (rev vs ! ((m + 1) mod ?n)) = - ?g m"
    by (simp add: rev_nth Suc cross_swap [of "vs ! 0"])
  finally show ?thesis by (simp add: cyclic_sum_def Suc)
qed

lemma planar_rev: "planar (rev vs) = planar vs"
  by (simp add: planar_def list_all_iff)

lemma planar_rotate: "planar (rotate k vs) = planar vs"
  by (simp add: planar_def list_all_iff)

lemma exact_input_rev: "exact_input B (rev vs) = exact_input B vs"
  by (simp add: exact_input_def list_all_iff)

lemma exact_input_rotate: "exact_input B (rotate k vs) = exact_input B vs"
  by (simp add: exact_input_def list_all_iff)

lemma exact_input_square: "exact_input 4 square"
  by (simp add: exact_input_def square_def)

lemma cyclic_sum_square: "cyclic_sum square = 32"
  by (simp add: cyclic_sum_def square_def cross_def lessThan_nat_numeral lessThan_Suc)

lemma calculate_polygon_area_square: "calculate_polygon_area square = Inr 16"
  by (simp add: calculate_polygon_area_exact [OF exact_input_square] cyclic_sum_square)
     (simp add: square_def planar_def)

subsection \<open>Roundings of two runs on tenths\<close>

text \<open>
  The roundings met when the loop runs over the rectangles with corners at 0.1, 0.2 and
  0.5 (or 0.4), in the orders compared below. Each is checked with its exponent and its
  significand.
\<close>

lemma fl_step_1: "fl (1 / 10) = 3602879701896397 / 36028797018963968"
  by (rule fl_eval [where e = "- 56" and m = "7205759403792794"]) (simp_all add: round_even_def)

lemma fl_step_2: "fl (1 / 5) = 3602879701896397 / 18014398509481984"
  by (rule fl_eval [where e = "- 55" and m = "7205759403792794"]) (simp_all add: round_even_def)

lemma fl_step_3: "fl (1 / 2) = 1 / 2"
  by (rule fl_eval [where e = "- 53" and m = "4503599627370496"]) (simp_all add: round_even_def)

lemma fl_step_4: "fl (12980742146337070512478121581609 / 1298074214633706907132624082305024) = 1441151880758559 / 144115188075855872"
  by (rule fl_eval [where e = "- 59" and m = "5764607523034236"]) (simp_all add: round_even_def)

lemma fl_step_5: "fl (12980742146337070512478121581609 / 649037107316853453566312041152512) = 1441151880758559 / 72057594037927936"
  by (rule fl_eval [where e = "- 58" and m = "5764607523034236"]) (simp_all add: round_even_def)

lemma fl_step_6: "fl (- (1441151880758559 / 144115188075855872)) = - (1441151880758559 / 144115188075855872)"
  by (rule fl_eval [where e = "- 59" and m = "5764607523034236"]) (simp_all add: round_even_def)

lemma fl_step_7: "fl (3602879701896397 / 36028797018963968) = 3602879701896397 / 36028797018963968"
  by (rule fl_eval [where e = "- 56" and m = "7205759403792794"]) (simp_all add: round_even_def)

lemma fl_step_8: "fl (5764607523034235 / 72057594037927936) = 5764607523034235 / 72057594037927936"
  by (rule fl_eval [where e = "- 56" and m = "5764607523034235"]) (simp_all add: round_even_def)

lemma fl_step_9: "fl (10088063165309911 / 144115188075855872) = 1261007895663739 / 18014398509481984"
  by (rule fl_eval [where e = "- 56" and m = "5044031582654956"]) (simp_all add: round_even_def)

lemma fl_step_10: "fl (3602879701896397 / 72057594037927936) = 3602879701896397 / 72057594037927936"
  by (rule fl_eval [where e = "- 57" and m = "7205759403792794"]) (simp_all add: round_even_def)

lemma fl_step_11: "fl (8646911284551353 / 72057594037927936) = 8646911284551353 / 72057594037927936"
  by (rule fl_eval [where e = "- 56" and m = "8646911284551353"]) (simp_all add: round_even_def)

lemma fl_step_12: "fl (- (5764607523034235 / 144115188075855872)) = - (5764607523034235 / 144115188075855872)"
  by (rule fl_eval [where e = "- 57" and m = "5764607523034235"]) (simp_all add: round_even_def)

lemma fl_step_13: "fl (11529215046068471 / 144115188075855872) = 1441151880758559 / 18014398509481984"
  by (rule fl_eval [where e = "- 56" and m = "5764607523034236"]) (simp_all add: round_even_def)

lemma fl_step_14: "fl (1441151880758559 / 36028797018963968) = 1441151880758559 / 36028797018963968"
  by (rule fl_eval [where e = "- 57" and m = "5764607523034236"]) (simp_all add: round_even_def)

lemma fl_step_15: "fl (- (3602879701896397 / 72057594037927936)) = - (3602879701896397 / 72057594037927936)"
  by (rule fl_eval [where e = "- 57" and m = "7205759403792794"]) (simp_all add: round_even_def)

lemma fl_step_16: "fl (- (5764607523034235 / 72057594037927936)) = - (5764607523034235 / 72057594037927936)"
  by (rule fl_eval [where e = "- 56" and m = "5764607523034235"]) (simp_all add: round_even_def)

lemma fl_step_17: "fl (- (1170935903116329 / 9007199254740992)) = - (1170935903116329 / 9007199254740992)"
  by (rule fl_eval [where e = "- 55" and m = "4683743612465316"]) (simp_all add: round_even_def)

lemma fl_step_18: "fl (1441151880758559 / 144115188075855872) = 1441151880758559 / 144115188075855872"
  by (rule fl_eval [where e = "- 59" and m = "5764607523034236"]) (simp_all add: round_even_def)

lemma fl_step_19: "fl (- (17293822569102705 / 144115188075855872)) = - (1080863910568919 / 9007199254740992)"
  by (rule fl_eval [where e = "- 56" and m = "8646911284551352"]) (simp_all add: round_even_def)

lemma fl_step_20: "fl (5764607523034235 / 144115188075855872) = 5764607523034235 / 144115188075855872"
  by (rule fl_eval [where e = "- 57" and m = "5764607523034235"]) (simp_all add: round_even_def)

lemma fl_step_21: "fl (- (11529215046068469 / 144115188075855872)) = - (2882303761517117 / 36028797018963968)"
  by (rule fl_eval [where e = "- 56" and m = "5764607523034234"]) (simp_all add: round_even_def)

lemma fl_step_22: "fl (2882303761517117 / 72057594037927936) = 2882303761517117 / 72057594037927936"
  by (rule fl_eval [where e = "- 57" and m = "5764607523034234"]) (simp_all add: round_even_def)

lemma fl_step_23: "fl (2 / 5) = 3602879701896397 / 9007199254740992"
  by (rule fl_eval [where e = "- 54" and m = "7205759403792794"]) (simp_all add: round_even_def)

lemma fl_step_24: "fl (12980742146337070512478121581609 / 162259276829213363391578010288128) = 1441151880758559 / 18014398509481984"
  by (rule fl_eval [where e = "- 56" and m = "5764607523034236"]) (simp_all add: round_even_def)

lemma fl_step_25: "fl (4323455642275677 / 72057594037927936) = 4323455642275677 / 72057594037927936"
  by (rule fl_eval [where e = "- 57" and m = "8646911284551354"]) (simp_all add: round_even_def)

lemma fl_step_26: "fl (7205759403792795 / 144115188075855872) = 7205759403792795 / 144115188075855872"
  by (rule fl_eval [where e = "- 57" and m = "7205759403792795"]) (simp_all add: round_even_def)

lemma fl_step_27: "fl (12980742146337070512478121581609 / 324518553658426726783156020576256) = 1441151880758559 / 36028797018963968"
  by (rule fl_eval [where e = "- 57" and m = "5764607523034236"]) (simp_all add: round_even_def)

lemma fl_step_28: "fl (12970366926827031 / 144115188075855872) = 1621295865853379 / 18014398509481984"
  by (rule fl_eval [where e = "- 56" and m = "6485183463413516"]) (simp_all add: round_even_def)

lemma fl_step_29: "fl (- (4323455642275677 / 144115188075855872)) = - (4323455642275677 / 144115188075855872)"
  by (rule fl_eval [where e = "- 58" and m = "8646911284551354"]) (simp_all add: round_even_def)

lemma fl_step_30: "fl (8646911284551355 / 144115188075855872) = 8646911284551355 / 144115188075855872"
  by (rule fl_eval [where e = "- 57" and m = "8646911284551355"]) (simp_all add: round_even_def)

lemma fl_step_31: "fl (8646911284551355 / 288230376151711744) = 8646911284551355 / 288230376151711744"
  by (rule fl_eval [where e = "- 58" and m = "8646911284551355"]) (simp_all add: round_even_def)

lemma fl_step_32: "fl (7205759403792795 / 72057594037927936) = 7205759403792795 / 72057594037927936"
  by (rule fl_eval [where e = "- 56" and m = "7205759403792795"]) (simp_all add: round_even_def)

lemma fl_step_33: "fl (10088063165309913 / 144115188075855872) = 1261007895663739 / 18014398509481984"
  by (rule fl_eval [where e = "- 56" and m = "5044031582654956"]) (simp_all add: round_even_def)

lemma fl_step_34: "fl (8646911284551353 / 144115188075855872) = 8646911284551353 / 144115188075855872"
  by (rule fl_eval [where e = "- 57" and m = "8646911284551353"]) (simp_all add: round_even_def)

lemma fl_step_35: "fl (8646911284551353 / 288230376151711744) = 8646911284551353 / 288230376151711744"
  by (rule fl_eval [where e = "- 58" and m = "8646911284551353"]) (simp_all add: round_even_def)

lemmas fl_steps =
  fl_step_1 fl_step_2 fl_step_3 fl_step_4 fl_step_5 fl_step_6 fl_step_7 fl_step_8
  fl_step_9 fl_step_10 fl_step_11 fl_step_12 fl_step_13 fl_step_14 fl_step_15 fl_step_16
  fl_step_17 fl_step_18 fl_step_19 fl_step_20 fl_step_21 fl_step_22 fl_step_23 fl_step_24
  fl_step_25 fl_step_26 fl_step_27 fl_step_28 fl_step_29 fl_step_30 fl_step_31 fl_step_32
  fl_step_33 fl_step_34 fl_step_35

lemma area_tenths:
  "calculate_polygon_area
     [[fl (1 / 10), fl (1 / 10)], [fl (1 / 5), fl (1 / 10)],
      [fl (1 / 5), fl (1 / 2)], [fl (1 / 10), fl (1 / 2)]] =
   Inr (1441151880758559 / 2 ^ 55)"
  by (simp add: calculate_polygon_area_def shoelace.simps getitem_def fl_zero fl_steps)

lemma area_tenths_reversed:
  "calculate_polygon_area
     [[fl (1 / 10), fl (1 / 2)], [fl (1 / 5), fl (1 / 2)],
      [fl (1 / 5), fl (1 / 10)], [fl (1 / 10), fl (1 / 10)]] =
   Inr (2882303761517117 / 2 ^ 56)"
  by (simp add: calculate_polygon_area_def shoelace.simps getitem_def fl_zero fl_steps)

lemma area_tenths_4:
  "calculate_polygon_area
     [[fl (1 / 10), fl (1 / 10)], [fl (1 / 5), fl (1 / 10)],
      [fl (1 / 5), fl (2 / 5)], [fl (1 / 10), fl (2 / 5)]] =
   Inr (8646911284551355 / 2 ^ 58)"
  by (simp add: calculate_polygon_area_def shoelace.simps getitem_def fl_zero fl_steps)

lemma area_tenths_4_rotated:
  "calculate_polygon_area
     [[fl (1 / 5), fl (1 / 10)], [fl (1 / 5), fl (2 / 5)],
      [fl (1 / 10), fl (2 / 5)], [fl (1 / 10), fl (1 / 10)]] =
   Inr (8646911284551353 / 2 ^ 58)"
  by (simp add: calculate_polygon_area_def shoelace.simps getitem_def fl_zero fl_steps)

text \<open>
  Claim C5 says that reversing the vertex sequence never changes
  \<open>calculate_polygon_area\<close>. With the rounded sum of the code this fails: for the
  rectangle (0.1, 0.1), (0.2, 0.1), (0.2, 0.5), (0.1, 0.5) of doubles the code returns
  0.04000000000000001, and 0.039999999999999994 for the reversed list.
\<close>

theorem polygon_area_rev_counterexample:
  "calculate_polygon_area
     [[fl (1 / 10), fl (1 / 10)], [fl (1 / 5), fl (1 / 10)],
      [fl (1 / 5), fl (1 / 2)], [fl (1 / 10), fl (1 / 2)]] =
     Inr (1441151880758559 / 2 ^ 55) \<and>
   calculate_polygon_area
     (rev [[fl (1 / 10), fl (1 / 10)], [fl (1 / 5), fl (1 / 10)],
           [fl (1 / 5), fl (1 / 2)], [fl (1 / 10), fl (1 / 2)]]) =
     Inr (2882303761517117 / 2 ^ 56) \<and>
   calculate_polygon_area
     (rev [[fl (1 / 10), fl (1 / 10)], [fl (1 / 5), fl (1 / 10)],
           [fl (1 / 5), fl (1 / 2)], [fl (1 / 10), fl (1 / 2)]]) \<noteq>
   calculate_polygon_area
     [[fl (1 / 10), fl (1 / 10)], [fl (1 / 5), fl (1 / 10)],
      [fl (1 / 5), fl (1 / 2)], [fl (1 / 10), fl (1 / 2)]]"
  using area_tenths area_tenths_reversed by simp

text \<open>
  Claim C5, amended. On vertex lists whose coordinates are integers small enough for the
  sum to be computed without rounding, reversing the list does not change
  \<open>calculate_polygon_area\<close> (the signed sum changes sign, its absolute value does not; a
  vertex without two coordinates raises \<open>IndexError\<close> in either direction). The square
  (0,0), (4,0), (4,4), (0,4) gives 16 in both directions.
\<close>

theorem polygon_area_rev_exact:
  assumes "exact_input B vs"
  shows "calculate_polygon_area (rev vs) = calculate_polygon_area vs \<and>
         calculate_polygon_area [[0, 0], [4, 0], [4, 4], [0, 4]] = Inr 16 \<and>
         calculate_polygon_area (rev [[0, 0], [4, 0], [4, 4], [0, 4]]) = Inr 16"
proof -
  have "calculate_polygon_area (rev ws) = calculate_polygon_area ws" if "exact_input C ws" for C ws
  proof -
    from that have "exact_input C (rev ws)" by (simp add: exact_input_rev)
    then show ?thesis
      using that by (simp add: calculate_polygon_area_exact planar_rev cyclic_sum_rev)
  qed
  from this [OF assms] this [OF exact_input_square] calculate_polygon_area_square
  show ?thesis by (simp add: square_def)
qed

theorem polygon_area_rev_exact_witness:
  "exact_input 4 [[0, 0], [4, 0], [0, 3]] \<and>
   calculate_polygon_area (rev [[0, 0], [4, 0], [0, 3]]) = Inr 6 \<and>
   calculate_polygon_area [[0, 0], [4, 0], [0, 3]] = Inr 6"
proof -
  have ex: "exact_input 4 [[0, 0], [4, 0], [0, 3]]"
    by (simp add: exact_input_def)
  have "calculate_polygon_area [[0, 0], [4, 0], [0, 3]] = Inr 6"
    by (simp add: calculate_polygon_area_exact [OF ex] planar_def cyclic_sum_def cross_def
        lessThan_nat_numeral lessThan_Suc)
  then show ?thesis
    using polygon_area_rev_exact [OF ex] ex by simp
qed

text \<open>
  Claim C10 says that rotating the vertex sequence never changes
  \<open>calculate_polygon_area\<close>. With the rounded sum of the code this fails: for the
  rectangle (0.1, 0.1), (0.2, 0.1), (0.2, 0.4), (0.1, 0.4) of doubles the code returns
  0.03000000000000001, and 0.030000000000000002 for the list rotated by one.
\<close>

theorem polygon_area_rotate_counterexample:
  "calculate_polygon_area
     [[fl (1 / 10), fl (1 / 10)], [fl (1 / 5), fl (1 / 10)],
      [fl (1 / 5), fl (2 / 5)], [fl (1 / 10), fl (2 / 5)]] =
     Inr (8646911284551355 / 2 ^ 58) \<and>
   calculate_polygon_area
     (rotate 1 [[fl (1 / 10), fl (1 / 10)], [fl (1 / 5), fl (1 / 10)],
                [fl (1 / 5), fl (2 / 5)], [fl (1 / 10), fl (2 / 5)]]) =
     Inr (8646911284551353 / 2 ^ 58) \<and>
   calculate_polygon_area
     (rotate 1 [[fl (1 / 10), fl (1 / 10)], [fl (1 / 5), fl (1 / 10)],
                [fl (1 / 5), fl (2 / 5)], [fl (1 / 10), fl (2 / 5)]]) \<noteq>
   calculate_polygon_area
     [[fl (1 / 10), fl (1 / 10)], [fl (1 / 5), fl (1 / 10)],
      [fl (1 / 5), fl (2 / 5)], [fl (1 / 10), fl (2 / 5)]]"
  using area_tenths_4 area_tenths_4_rotated by simp

text \<open>
  Claim C10, amended. On vertex lists whose coordinates are integers small enough for
  the sum to be computed without rounding, rotating the list cyclically by any amount
  \<open>k\<close> does not change \<open>calculate_polygon_area\<close>: the sum runs over the cycle, whatever
  vertex it starts at.
\<close>

theorem polygon_area_rotate_exact:
  assumes "exact_input B vs"
  shows "calculate_polygon_area (rotate k vs) = calculate_polygon_area vs"
proof -
  from assms have "exact_input B (rotate k vs)" by (simp add: exact_input_rotate)
  then show ?thesis
    using assms by (simp add: calculate_polygon_area_exact planar_rotate cyclic_sum_rotate)
qed

theorem polygon_area_rotate_exact_witness:
  "exact_input 4 [[0, 0], [4, 0], [4, 4], [0, 4]] \<and>
   calculate_polygon_area (rotate 2 [[0, 0], [4, 0], [4, 4], [0, 4]]) = Inr 16 \<and>
   calculate_polygon_area [[4, 4], [0, 4], [0, 0], [4, 0]] = Inr 16"
proof -
  have ex: "exact_input 4 [[0, 0], [4, 0], [4, 4], [0, 4]]"
    by (simp add: exact_input_def)
  have "calculate_polygon_area [[0, 0], [4, 0], [4, 4], [0, 4]] = Inr 16"
    using calculate_polygon_area_square by (simp add: square_def)
  moreover have "rotate 2 [[0, 0], [4, 0], [4, 4], [0, 4 :: real]] = [[4, 4], [0, 4], [0, 0], [4, 0]]"
    by (simp add: numeral_2_eq_2)
  ultimately show ?thesis
    using polygon_area_rotate_exact [OF ex, of 2] ex by simp
qed

section \<open>calculate_quantities, entity by entity\<close>

lemma emit_line_3_4:
  "emit line_3_4 = Inr [\<lparr>type = ''LINE'', layer = ''0'', length' = Some 5, area = None, volume = None\<rparr>]"
  by (simp add: emit_def line_3_4_def calculate_distance_def getitem_def)

lemma emit_circle_2:
  "emit circle_2 = Inr [\<lparr>type = ''CIRCLE'', layer = ''0'', length' = None, area = Some (pi * 4), volume = None\<rparr>]"
  by (simp add: emit_def circle_2_def)

lemma emit_circle_no_radius: "emit circle_no_radius = Inl TypeError"
  by (simp add: emit_def circle_no_radius_def)

lemma emit_arc_entity: "emit arc_entity = Inr []"
  by (simp add: emit_def arc_entity_def)

lemma emit_open_polyline:
  "emit open_polyline = Inr [\<lparr>type = ''LWPOLYLINE'', layer = ''walls'', length' = None, area = None, volume = None\<rparr>]"
  by (simp add: emit_def open_polyline_def)

text \<open>
  Claim C1 says that \<open>calculate_quantities\<close> never gives up a whole batch because one
  entity lacks a field, in particular a CIRCLE without radius. The code does give it up:
  squaring the absent radius raises \<open>TypeError\<close>, which leaves the loop, so the LINE
  after the circle is never measured, although alone it yields its record. The branches
  for LINE, LWPOLYLINE, 3DSOLID and POLYFACE all guard against the absent field.
\<close>

theorem circle_without_radius_aborts:
  "calculate_quantities [circle_no_radius, line_3_4] = Inl TypeError \<and>
   calculate_quantities [line_3_4] =
     Inr [\<lparr>type = ''LINE'', layer = ''0'', length' = Some 5, area = None, volume = None\<rparr>]"
  by (simp add: calculate_quantities_Cons calculate_quantities_Nil
      emit_circle_no_radius emit_line_3_4)

lemma calculate_quantities_insert:
  assumes "emit e = Inr r"
  shows "calculate_quantities (xs @ e # ys) =
    and_then (calculate_quantities xs) (\<lambda>r1.
      and_then (calculate_quantities ys) (\<lambda>r2. Inr (r1 @ r @ r2)))"
  using assms
  by (cases "calculate_quantities xs"; cases "calculate_quantities ys")
     (simp_all add: calculate_quantities_append calculate_quantities_Cons)

text \<open>
  Claim C3. An entity of type ARC yields no quantity record: alone it gives the empty
  list, and inside any batch the result is the one of the batch without it. Yet
  \<open>extract_entities\<close> keeps a raw ARC: it is in the whitelist and is normalized.
\<close>

theorem arc_emits_nothing:
  assumes "type e = ''ARC''"
  shows "calculate_quantities [e] = Inr [] \<and>
         calculate_quantities (xs @ e # ys) = calculate_quantities (xs @ ys) \<and>
         (dxftype raw = ''ARC'' \<longrightarrow>
            extract_entities [raw] = [normalize raw] \<and> type (normalize raw) = ''ARC'')"
proof -
  have e: "emit e = Inr []" using assms by (simp add: emit_def)
  have "calculate_quantities (xs @ e # ys) =
      and_then (calculate_quantities xs) (\<lambda>r1.
        and_then (calculate_quantities ys) (\<lambda>r2. Inr (r1 @ [] @ r2)))"
    using e by (rule calculate_quantities_insert)
  also have "\<dots> = calculate_quantities (xs @ ys)"
    by (simp add: calculate_quantities_append)
  finally have "calculate_quantities (xs @ e # ys) = calculate_quantities (xs @ ys)" .
  moreover have "extract_entities [raw] = [normalize raw] \<and> type (normalize raw) = ''ARC''"
    if "dxftype raw = ''ARC''"
    using that by (simp add: extract_entities_def whitelist_def normalize_def)
  ultimately show ?thesis using e by (simp add: calculate_quantities_single)
qed

theorem arc_emits_nothing_witness:
  "type arc_entity = ''ARC'' \<and> dxftype raw_arc = ''ARC'' \<and>
   calculate_quantities [arc_entity] = Inr [] \<and>
   calculate_quantities ([line_3_4] @ arc_entity # [circle_2]) =
     Inr [\<lparr>type = ''LINE'', layer = ''0'', length' = Some 5, area = None, volume = None\<rparr>,
          \<lparr>type = ''CIRCLE'', layer = ''0'', length' = None, area = Some (pi * 4), volume = None\<rparr>] \<and>
   extract_entities [raw_arc] = [arc_entity]"
proof -
  have t: "type arc_entity = ''ARC''" by (simp add: arc_entity_def)
  have r: "dxftype raw_arc = ''ARC''" by (simp add: raw_arc_def)
  have n: "normalize raw_arc = arc_entity"
    by (simp add: normalize_def raw_arc_def arc_entity_def)
  have "calculate_quantities ([line_3_4] @ [circle_2]) =
     Inr [\<lparr>type = ''LINE'', layer = ''0'', length' = Some 5, area = None, volume = None\<rparr>,
          \<lparr>type = ''CIRCLE'', layer = ''0'', length' = None, area = Some (pi * 4), volume = None\<rparr>]"
    by (simp add: calculate_quantities_Cons calculate_quantities_Nil emit_line_3_4 emit_circle_2)
  then show ?thesis
    using arc_emits_nothing [OF t, of "[line_3_4]" "[circle_2]" raw_arc] t r n by simp
qed

text \<open>
  Claim C4. A CIRCLE whose radius \<open>r\<close> is present yields exactly one record, with
  area \<open>pi * r\<^sup>2\<close> and with length and volume absent; in a batch whose other entities
  are processed, the record stands at the circle's place. Radius 2 gives area \<open>pi * 4\<close>.
\<close>

theorem circle_area:
  assumes "type e = ''CIRCLE''" and "radius e = Some r"
  shows "calculate_quantities [e] =
           Inr [\<lparr>type = ''CIRCLE'', layer = layer e,
                 length' = None, area = Some (pi * r\<^sup>2), volume = None\<rparr>] \<and>
         (calculate_quantities xs = Inr r1 \<and> calculate_quantities ys = Inr r2 \<longrightarrow>
          calculate_quantities (xs @ e # ys) =
           Inr (r1 @ [\<lparr>type = ''CIRCLE'', layer = layer e,
                 length' = None, area = Some (pi * r\<^sup>2), volume = None\<rparr>] @ r2))"
proof -
  have "emit e = Inr [\<lparr>type = ''CIRCLE'', layer = layer e,
                 length' = None, area = Some (pi * r\<^sup>2), volume = None\<rparr>]"
    using assms by (simp add: emit_def)
  then show ?thesis
    by (simp add: calculate_quantities_single calculate_quantities_insert)
qed

theorem circle_area_witness:
  "type circle_2 = ''CIRCLE'' \<and> radius circle_2 = Some 2 \<and>
   calculate_quantities [circle_2] =
     Inr [\<lparr>type = ''CIRCLE'', layer = ''0'', length' = None, area = Some (pi * 4), volume = None\<rparr>] \<and>
   calculate_quantities [line_3_4] =
     Inr [\<lparr>type = ''LINE'', layer = ''0'', length' = Some 5, area = None, volume = None\<rparr>] \<and>
   calculate_quantities [] = Inr [] \<and>
   calculate_quantities ([line_3_4] @ circle_2 # []) =
     Inr [\<lparr>type = ''LINE'', layer = ''0'', length' = Some 5, area = None, volume = None\<rparr>,
          \<lparr>type = ''CIRCLE'', layer = ''0'', length' = None, area = Some (pi * 4), volume = None\<rparr>]"
proof -
  have t: "type circle_2 = ''CIRCLE''" and r: "radius circle_2 = Some 2"
    and l: "layer circle_2 = ''0''"
    by (simp_all add: circle_2_def)
  have x: "calculate_quantities [line_3_4] =
     Inr [\<lparr>type = ''LINE'', layer = ''0'', length' = Some 5, area = None, volume = None\<rparr>]"
    by (simp add: calculate_quantities_single emit_line_3_4)
  have y: "calculate_quantities [] = Inr []" by (rule calculate_quantities_Nil)
  show ?thesis
    using circle_area [OF t r, of "[line_3_4]" _ "[]" "[]"] t r l x y by simp
qed

text \<open>
  Claim C6. An LWPOLYLINE with a non-empty vertex list that is not closed yields exactly
  one record, in which length, area and volume are all absent: no segment lengths are
  summed.
\<close>

theorem open_polyline_all_absent:
  assumes "type e = ''LWPOLYLINE''" and "vertices e \<noteq> []" and "\<not> is_closed e"
  shows "calculate_quantities [e] =
           Inr [\<lparr>type = ''LWPOLYLINE'', layer = layer e,
                 length' = None, area = None, volume = None\<rparr>] \<and>
         (calculate_quantities xs = Inr r1 \<and> calculate_quantities ys = Inr r2 \<longrightarrow>
          calculate_quantities (xs @ e # ys) =
           Inr (r1 @ [\<lparr>type = ''LWPOLYLINE'', layer = layer e,
                 length' = None, area = None, volume = None\<rparr>] @ r2))"
proof -
  have "emit e = Inr [\<lparr>type = ''LWPOLYLINE'', layer = layer e,
                 length' = None, area = None, volume = None\<rparr>]"
    using assms by (simp add: emit_def)
  then show ?thesis
    by (simp add: calculate_quantities_single calculate_quantities_insert)
qed

theorem open_polyline_all_absent_witness:
  "type open_polyline = ''LWPOLYLINE'' \<and> vertices open_polyline \<noteq> [] \<and>
   is_closed open_polyline = False \<and>
   calculate_quantities [open_polyline] =
     Inr [\<lparr>type = ''LWPOLYLINE'', layer = ''walls'', length' = None, area = None, volume = None\<rparr>] \<and>
   calculate_quantities [line_3_4] =
     Inr [\<lparr>type = ''LINE'', layer = ''0'', length' = Some 5, area = None, volume = None\<rparr>] \<and>
   calculate_quantities [] = Inr [] \<and>
   calculate_quantities ([] @ open_polyline # [line_3_4]) =
     Inr [\<lparr>type = ''LWPOLYLINE'', layer = ''walls'', length' = None, area = None, volume = None\<rparr>,
          \<lparr>type = ''LINE'', layer = ''0'', length' = Some 5, area = None, volume = None\<rparr>]"
proof -
  have t: "type open_polyline = ''LWPOLYLINE''" and v: "vertices open_polyline \<noteq> []"
    and c: "\<not> is_closed open_polyline" and l: "layer open_polyline = ''walls''"
    by (simp_all add: open_polyline_def)
  have x: "calculate_quantities [line_3_4] =
     Inr [\<lparr>type = ''LINE'', layer = ''0'', length' = Some 5, area = None, volume = None\<rparr>]"
    by (simp add: calculate_quantities_single emit_line_3_4)
  have y: "calculate_quantities [] = Inr []" by (rule calculate_quantities_Nil)
  show ?thesis
    using open_polyline_all_absent [OF t v c, of "[]" "[]" "[line_3_4]"] t v c l x y by simp
qed

text \<open>
  Claim C7. When a point is absent \<open>calculate_distance\<close> returns 0 and does not raise.
  For two present points (sequences of at least two coordinates, as the points of the
  data model are) it returns the Euclidean distance of their first two coordinates, and
  nothing beyond these two coordinates matters.
\<close>

theorem calculate_distance_contract:
  "(p = None \<or> q = None \<longrightarrow> calculate_distance p q = Inr 0) \<and>
   (2 \<le> length a \<and> 2 \<le> length b \<longrightarrow>
      calculate_distance (Some a) (Some b) =
        Inr (sqrt ((b ! 0 - a ! 0)\<^sup>2 + (b ! 1 - a ! 1)\<^sup>2)) \<and>
      calculate_distance (Some a) (Some b) =
        calculate_distance (Some (take 2 a)) (Some (take 2 b)))"
  by (auto simp: calculate_distance_def getitem_def)

theorem calculate_distance_contract_witness:
  "calculate_distance None (Some [1]) = Inr 0 \<and>
   calculate_distance (Some [0, 0, 7]) (Some [3, 4, 9]) = Inr 5 \<and>
   calculate_distance (Some [0, 0, 7]) (Some [3, 4, 9]) =
     calculate_distance (Some [0, 0]) (Some [3, 4])"
  using calculate_distance_contract [of None "Some [1]" "[0, 0, 7]" "[3, 4, 9]"]
  by (simp add: calculate_distance_def getitem_def)

section \<open>Order and shape of the records\<close>

lemma calculate_quantities_Cons_Inr:
  assumes "calculate_quantities (e # es) = Inr rs"
  obtains r rs' where "emit e = Inr r" "calculate_quantities es = Inr rs'" "rs = r @ rs'"
  using assms
  by (cases "emit e"; cases "calculate_quantities es")
     (auto simp: calculate_quantities_Cons)

lemma calculate_quantities_concat:
  "calculate_quantities es = Inr rs \<Longrightarrow>
     \<exists>rss. rs = concat rss \<and> list_all2 (\<lambda>e r. emit e = Inr r) es rss"
proof (induction es arbitrary: rs)
  case Nil
  then show ?case by (simp add: calculate_quantities_Nil)
next
  case (Cons e es)
  from Cons.prems obtain r rs' where
    e: "emit e = Inr r" and es: "calculate_quantities es = Inr rs'" and rs: "rs = r @ rs'"
    by (rule calculate_quantities_Cons_Inr)
  from Cons.IH [OF es] obtain rss where
    "rs' = concat rss" "list_all2 (\<lambda>e r. emit e = Inr r) es rss" by blast
  with e rs have "rs = concat (r # rss) \<and> list_all2 (\<lambda>e r. emit e = Inr r) (e # es) (r # rss)"
    by simp
  then show ?case by blast
qed

lemma concat_length_le:
  "list_all2 (\<lambda>e r. length (r :: 'b list) \<le> 1) (es :: 'a list) rss \<Longrightarrow>
     length (concat rss) \<le> length es"
  by (induction es rss rule: list_all2_induct) auto

text \<open>
  Claim C8. The records returned by \<open>calculate_quantities\<close> are no more than the
  entities, and they come in the order of the entities that produced them: the result
  is the concatenation, in input order, of what each entity yields on its own, which is
  at most one record.
\<close>

theorem quantities_ordered:
  assumes "calculate_quantities es = Inr rs"
  shows "length rs \<le> length es \<and>
         (\<exists>rss. rs = concat rss \<and>
            list_all2 (\<lambda>e r. calculate_quantities [e] = Inr r \<and> length r \<le> 1) es rss)"
proof -
  from calculate_quantities_concat [OF assms] obtain rss where
    rs: "rs = concat rss" and all: "list_all2 (\<lambda>e r. emit e = Inr r) es rss" by blast
  from all have all': "list_all2 (\<lambda>e r. calculate_quantities [e] = Inr r \<and> length r \<le> 1) es rss"
    by (rule list_all2_mono) (auto simp: calculate_quantities_single dest: emit_length)
  then have "list_all2 (\<lambda>e r. length r \<le> 1) es rss"
    by (rule list_all2_mono) simp
  then have "length (concat rss) \<le> length es" by (rule concat_length_le)
  with rs all' show ?thesis by blast
qed

theorem quantities_ordered_witness:
  "calculate_quantities [line_3_4, arc_entity, circle_2] =
     Inr [\<lparr>type = ''LINE'', layer = ''0'', length' = Some 5, area = None, volume = None\<rparr>,
          \<lparr>type = ''CIRCLE'', layer = ''0'', length' = None, area = Some (pi * 4), volume = None\<rparr>] \<and>
   length [\<lparr>type = ''LINE'', layer = ''0'', length' = Some 5, area = None, volume = None\<rparr>,
          \<lparr>type = ''CIRCLE'', layer = ''0'', length' = None, area = Some (pi * 4), volume = None\<rparr>]
     \<le> length [line_3_4, arc_entity, circle_2] \<and>
   (\<exists>rss. [\<lparr>type = ''LINE'', layer = ''0'', length' = Some 5, area = None, volume = None\<rparr>,
          \<lparr>type = ''CIRCLE'', layer = ''0'', length' = None, area = Some (pi * 4), volume = None\<rparr>]
       = concat rss \<and>
      list_all2 (\<lambda>e r. calculate_quantities [e] = Inr r \<and> length r \<le> 1)
        [line_3_4, arc_entity, circle_2] rss)"
proof -
  have run: "calculate_quantities [line_3_4, arc_entity, circle_2] =
     Inr [\<lparr>type = ''LINE'', layer = ''0'', length' = Some 5, area = None, volume = None\<rparr>,
          \<lparr>type = ''CIRCLE'', layer = ''0'', length' = None, area = Some (pi * 4), volume = None\<rparr>]"
    by (simp add: calculate_quantities_Cons calculate_quantities_Nil
        emit_line_3_4 emit_arc_entity emit_circle_2)
  show ?thesis
    using quantities_ordered [OF run] run by blast
qed

lemma emit_shape:
  assumes "emit e = Inr r" and "q \<in> set r"
  shows "(type q = ''LINE'' \<and> area q = None \<and> volume q = None) \<or>
         ((type q = ''CIRCLE'' \<or> type q = ''LWPOLYLINE'') \<and> length' q = None \<and> volume q = None) \<or>
         ((type q = ''3DSOLID'' \<or> type q = ''POLYFACE'') \<and> length' q = None \<and> area q = None)"
  using assms
  by (auto simp: emit_def and_then_Inr_iff split: if_splits)

lemma calculate_quantities_member:
  "calculate_quantities es = Inr rs \<Longrightarrow> q \<in> set rs \<Longrightarrow>
     \<exists>e r. e \<in> set es \<and> emit e = Inr r \<and> q \<in> set r"
proof (induction es arbitrary: rs)
  case Nil
  then show ?case by (simp add: calculate_quantities_Nil)
next
  case (Cons e es)
  from Cons.prems(1) obtain r rs' where
    e: "emit e = Inr r" and es: "calculate_quantities es = Inr rs'" and rs: "rs = r @ rs'"
    by (rule calculate_quantities_Cons_Inr)
  from Cons.prems(2) rs consider "q \<in> set r" | "q \<in> set rs'" by auto
  then show ?case
  proof cases
    case 1
    with e show ?thesis by auto
  next
    case 2
    from Cons.IH [OF es 2] show ?thesis by auto
  qed
qed

text \<open>
  Claim C9. In every record returned by \<open>calculate_quantities\<close> at most one of
  length, area and volume is present, and the type says which one may be: length for
  LINE, area for CIRCLE and LWPOLYLINE, volume for 3DSOLID and POLYFACE.
\<close>

theorem one_value_by_type:
  assumes "calculate_quantities es = Inr rs" and "q \<in> set rs"
  shows "length (filter (\<lambda>v. v \<noteq> None) [length' q, area q, volume q]) \<le> 1 \<and>
         ((type q = ''LINE'' \<and> area q = None \<and> volume q = None) \<or>
          ((type q = ''CIRCLE'' \<or> type q = ''LWPOLYLINE'') \<and> length' q = None \<and> volume q = None) \<or>
          ((type q = ''3DSOLID'' \<or> type q = ''POLYFACE'') \<and> length' q = None \<and> area q = None))"
proof -
  from calculate_quantities_member [OF assms] obtain e r where
    "emit e = Inr r" "q \<in> set r" by blast
  then have shape:
    "(type q = ''LINE'' \<and> area q = None \<and> volume q = None) \<or>
     ((type q = ''CIRCLE'' \<or> type q = ''LWPOLYLINE'') \<and> length' q = None \<and> volume q = None) \<or>
     ((type q = ''3DSOLID'' \<or> type q = ''POLYFACE'') \<and> length' q = None \<and> area q = None)"
    by (rule emit_shape)
  then have "length (filter (\<lambda>v. v \<noteq> None) [length' q, area q, volume q]) \<le> 1"
    by auto
  with shape show ?thesis by simp
qed

theorem one_value_by_type_witness:
  "calculate_quantities [line_3_4, arc_entity, circle_2] =
     Inr [\<lparr>type = ''LINE'', layer = ''0'', length' = Some 5, area = None, volume = None\<rparr>,
          \<lparr>type = ''CIRCLE'', layer = ''0'', length' = None, area = Some (pi * 4), volume = None\<rparr>] \<and>
   length (filter (\<lambda>v. v \<noteq> None) [None, Some (pi * 4), None]) \<le> 1 \<and>
   type \<lparr>type = ''CIRCLE'', layer = ''0'', length' = None, area = Some (pi * 4), volume = None\<rparr> = ''CIRCLE''"
proof -
  have run: "calculate_quantities [line_3_4, arc_entity, circle_2] =
     Inr [\<lparr>type = ''LINE'', layer = ''0'', length' = Some 5, area = None, volume = None\<rparr>,
          \<lparr>type = ''CIRCLE'', layer = ''0'', length' = None, area = Some (pi * 4), volume = None\<rparr>]"
    by (simp add: calculate_quantities_Cons calculate_quantities_Nil
        emit_line_3_4 emit_arc_entity emit_circle_2)
  have mem: "\<lparr>type = ''CIRCLE'', layer = ''0'', length' = None, area = Some (pi * 4), volume = None\<rparr>
      \<in> set [\<lparr>type = ''LINE'', layer = ''0'', length' = Some 5, area = None, volume = None\<rparr>,
          \<lparr>type = ''CIRCLE'', layer = ''0'', length' = None, area = Some (pi * 4), volume = None\<rparr>]"
    by simp
  show ?thesis
    using one_value_by_type [OF run mem] run by simp
qed

end
